theory Spec2Isabelle
  imports Main "HOL-Library.Word" "HOL-Library.Multiset"
begin

unbundle bit_operations_syntax

section \<open>Strings and formatting\<close>

text \<open>
  Go strings are byte sequences and are modelled as \<open>string\<close>.  The functions of the
  \<^verbatim>\<open>strings\<close> and \<^verbatim>\<open>fmt\<close> packages that \<^verbatim>\<open>lib/proto.go\<close> calls are written out here.
  \<^verbatim>\<open>strings.ToLower\<close> and the \<^verbatim>\<open>%q\<close> verb are modelled on ASCII: bytes from 128 on
  are left as they are (Go would also map the upper-case letters beyond ASCII, and would
  escape bytes that are not valid, printable UTF-8).
\<close>

abbreviation NL :: string where "NL \<equiv> [CHR 0x0A]"
abbreviation TAB :: string where "TAB \<equiv> [CHR 0x09]"
abbreviation DQ :: char where "DQ \<equiv> CHR 0x22"
abbreviation BSL :: char where "BSL \<equiv> CHR 0x5C"

definition HasPrefix :: "string \<Rightarrow> string \<Rightarrow> bool" where
  "HasPrefix s p = (take (length p) s = p)"

definition HasSuffix :: "string \<Rightarrow> string \<Rightarrow> bool" where
  "HasSuffix s p = (length p \<le> length s \<and> drop (length s - length p) s = p)"

definition TrimPrefix :: "string \<Rightarrow> string \<Rightarrow> string" where
  "TrimPrefix s p = (if HasPrefix s p then drop (length p) s else s)"

definition lowerChar :: "char \<Rightarrow> char" where
  "lowerChar c =
     (case map_of (zip ''ABCDEFGHIJKLMNOPQRSTUVWXYZ'' ''abcdefghijklmnopqrstuvwxyz'') c of
        Some d \<Rightarrow> d
      | None \<Rightarrow> c)"

definition ToLower :: "string \<Rightarrow> string" where
  "ToLower s = map lowerChar s"

text \<open>\<^verbatim>\<open>strings.Replace(s, [old], new, -1)\<close> for a one-byte \<^verbatim>\<open>old\<close>.\<close>

definition ReplaceChar :: "char \<Rightarrow> string \<Rightarrow> string \<Rightarrow> string" where
  "ReplaceChar old new s = concat (map (\<lambda>c. if c = old then new else [c]) s)"

text \<open>\<^verbatim>\<open>var dot2D = strings.NewReplacer(".", "__")\<close>\<close>

definition dot2D :: "string \<Rightarrow> string" where
  "dot2D s = ReplaceChar (CHR ''.'') ''__'' s"

text \<open>The \<^verbatim>\<open>%d\<close> verb on a non-negative int.\<close>

definition digitChar :: "nat \<Rightarrow> char" where
  "digitChar n = ''0123456789abcdef'' ! (n mod 16)"

function fmt_d :: "nat \<Rightarrow> string" where
  "fmt_d n = (if n < 10 then [digitChar n] else fmt_d (n div 10) @ [digitChar (n mod 10)])"
  by pat_completeness auto
termination
  by (relation "measure id") auto

declare fmt_d.simps [simp del]

text \<open>The \<^verbatim>\<open>%t\<close> verb.\<close>

definition fmt_t :: "bool \<Rightarrow> string" where
  "fmt_t b = (if b then ''true'' else ''false'')"

text \<open>The \<^verbatim>\<open>%q\<close> verb on a string (\<^verbatim>\<open>strconv.Quote\<close>).\<close>

definition quoteChar :: "char \<Rightarrow> string" where
  "quoteChar c =
     (let n = (of_char c :: nat) in
      if c = DQ \<or> c = BSL then [BSL, c]
      else if 32 \<le> n \<and> n < 127 then [c]
      else if n = 7 then [BSL, CHR ''a'']
      else if n = 8 then [BSL, CHR ''b'']
      else if n = 12 then [BSL, CHR ''f'']
      else if n = 10 then [BSL, CHR ''n'']
      else if n = 13 then [BSL, CHR ''r'']
      else if n = 9 then [BSL, CHR ''t'']
      else if n = 11 then [BSL, CHR ''v'']
      else if n < 32 \<or> n = 127 then [BSL, CHR ''x'', digitChar (n div 16), digitChar (n mod 16)]
      else [c])"

definition fmt_q :: "string \<Rightarrow> string" where
  "fmt_q s = [DQ] @ concat (map quoteChar s) @ [DQ]"

section \<open>The type model\<close>

text \<open>
  \<^verbatim>\<open>Function\<close> and \<^verbatim>\<open>Argument\<close> are declared outside \<^verbatim>\<open>lib/proto.go\<close>; the types
  below carry the fields that file reads.  \<^verbatim>\<open>RecordOf\<close> is a slice of named arguments,
  \<open>None\<close> when the slice is nil; \<^verbatim>\<open>TableOf\<close> is a pointer, \<open>None\<close> when nil.
\<close>

datatype flavor = FLAVOR_SIMPLE | FLAVOR_RECORD | FLAVOR_TABLE

datatype argument = Argument
  (Name: string)
  (Direction: "8 word")
  (Flavor: flavor)
  (AbsType: string)
  (TableOf: "argument option")
  (RecordOf: "(string \<times> argument) list option")

definition setName :: "string \<Rightarrow> argument \<Rightarrow> argument" where
  "setName n a = Argument n (Direction a) (Flavor a) (AbsType a) (TableOf a) (RecordOf a)"

record Function =
  name :: string
  Args :: "argument list"
  Returns :: "argument option"
  Documentation :: string

text \<open>
  Modelled from the spec: the direction constants are declared outside \<^verbatim>\<open>lib/proto.go\<close>;
  the spec has Direction "encoded as a bit set where IN and OUT are distinct,
  independently-testable bits".
\<close>

definition DIR_IN :: "8 word" where "DIR_IN = 1"
definition DIR_OUT :: "8 word" where "DIR_OUT = 2"

text \<open>
  Errors.  \<^verbatim>\<open>errors.Wrapf(ErrMissingTableOf, "no table of data for %s.%s (%v)", msgName, arg, arg)\<close>
  is kept as \<open>Wrapf\<close> with the message name and the argument, \<^verbatim>\<open>errors.Wrap(err, s)\<close> as
  \<open>Wrap\<close>; \<open>IOError\<close> stands for what a writer returns.
\<close>

datatype error =
    ErrMissingTableOf
  | IOError string
  | Wrapf error string argument
  | Wrap error string

fun Cause :: "error \<Rightarrow> error" where
  "Cause (Wrapf e m a) = Cause e"
| "Cause (Wrap e s) = Cause e"
| "Cause e = e"

text \<open>
  The package-level switches \<^verbatim>\<open>SkipMissingTableOf\<close>, \<^verbatim>\<open>Gogo\<close> and \<^verbatim>\<open>NumberAsString\<close>.
\<close>

record flags =
  SkipMissingTableOf :: bool
  Gogo :: bool
  NumberAsString :: bool

section \<open>The type mapper\<close>

text \<open>
  \<^verbatim>\<open>type protoOptions map[string]interface{}\<close>: the entries of the map, keys distinct; the
  nil map is \<open>[]\<close>.  The values that occur are strings; \<^verbatim>\<open>String\<close> tells booleans apart.
\<close>

datatype optval = OptString string | OptBool bool

type_synonym protoOptions = "(string \<times> optval) list"

definition protoType :: "flags \<Rightarrow> string \<Rightarrow> string \<Rightarrow> string \<times> protoOptions" where
  "protoType F got aName =
     (let trimmed = ToLower (TrimPrefix (TrimPrefix got ''[]'') ''*'') in
      if trimmed = ''time.time'' then (''string'', [])
      else if trimmed = ''string'' then (''string'', [])
      else if trimmed = ''int32'' then
        (if NumberAsString F
         then (''sint32'', [(''gogoproto.jsontag'', OptString (aName @ '',string,omitempty''))])
         else (''sint32'', []))
      else if trimmed = ''float64'' \<or> trimmed = ''sql.nullfloat64'' then
        (if NumberAsString F
         then (''double'', [(''gogoproto.jsontag'', OptString (aName @ '',string,omitempty''))])
         else (''double'', []))
      else if trimmed = ''goracle.number'' then
        (''string'', [(''gogoproto.jsontag'', OptString (aName @ '',omitempty''))])
      else if trimmed = ''custom.date'' then (''string'', [])
      else if trimmed = ''n'' then (''string'', [])
      else if trimmed = ''raw'' \<or> trimmed = ''goracle.lob'' \<or> trimmed = ''ora.lob''
        then (''bytes'', [])
      else (trimmed, []))"

text \<open>
  \<^verbatim>\<open>protoOptions.String\<close>.  Go visits the entries of a map in an order it does not
  specify; \<open>ord\<close> is the order in which \<^verbatim>\<open>range opts\<close> visits them (a rearrangement of
  the entries).  \<open>optionsLoop\<close> is the loop, \<open>buf\<close> the buffer that starts as \<^verbatim>\<open>[\<close>.
\<close>

fun optionsLoop :: "protoOptions \<Rightarrow> string \<Rightarrow> string" where
  "optionsLoop [] buf = buf"
| "optionsLoop ((k, v) # rest) buf =
     optionsLoop rest
       ((if length buf \<noteq> 1 then buf @ '', '' else buf) @ ''('' @ k @ '')='' @
        (case v of OptBool b \<Rightarrow> fmt_t b | OptString s \<Rightarrow> fmt_q s))"

definition protoOptions_String :: "(protoOptions \<Rightarrow> protoOptions) \<Rightarrow> protoOptions \<Rightarrow> string" where
  "protoOptions_String ord opts =
     (if length opts = 0 then '''' else optionsLoop (ord opts) ''['' @ '']'')"

definition mkRecTypName :: "string \<Rightarrow> string" where
  "mkRecTypName n = ToLower n @ ''_rek_typ''"

section \<open>The schema emitter\<close>

text \<open>
  The functions of the package that \<^verbatim>\<open>lib/proto.go\<close> calls and does not declare are
  parameters of the model: \<^verbatim>\<open>Argument.goType(false)\<close>, \<^verbatim>\<open>CamelCase\<close>, \<^verbatim>\<open>replHidden\<close>
  and \<^verbatim>\<open>Function.HasCursorOut\<close>.  \<open>rangeOrder\<close> is the order in which the Go runtime
  visits the entries of an options map.  \<^verbatim>\<open>Log\<close> only reports and is left out.
\<close>

record helpers =
  goType :: "argument \<Rightarrow> string"
  CamelCase :: "string \<Rightarrow> string"
  replHidden :: "string \<Rightarrow> string"
  HasCursorOut :: "Function \<Rightarrow> bool"
  rangeOrder :: "protoOptions \<Rightarrow> protoOptions"

text \<open>The test of lines 133 and 150: a table without the description of its elements.\<close>

definition missingTableOf :: "argument \<Rightarrow> bool" where
  "missingTableOf arg = (Flavor arg = FLAVOR_TABLE \<and> TableOf arg = None)"

text \<open>Lines 146 to 148: the loop's copy of the argument gets the desugared name.\<close>

definition hideName :: "helpers \<Rightarrow> argument \<Rightarrow> argument" where
  "hideName H arg =
     (if HasSuffix (Name arg) ''#'' then setName (replHidden H (Name arg)) arg else arg)"

text \<open>Lines 145 to 161: the qualifier \<^verbatim>\<open>rule\<close>.\<close>

definition fieldRule :: "helpers \<Rightarrow> argument \<Rightarrow> string" where
  "fieldRule H arg =
     (if HasPrefix (TrimPrefix (goType H arg) ''*'') ''[]'' then ''repeated ''
      else if Flavor arg = FLAVOR_TABLE then ''repeated ''
      else [])"

text \<open>Lines 156 to 165: the normalized type descriptor \<^verbatim>\<open>got\<close>.\<close>

definition stripMarkers :: "string \<Rightarrow> string" where
  "stripMarkers got0 =
     (let got = TrimPrefix got0 ''*'';
          got = (if HasPrefix got ''[]'' then drop 2 got else got)
      in TrimPrefix got ''*'')"

definition fieldGot :: "helpers \<Rightarrow> argument \<Rightarrow> string" where
  "fieldGot H arg =
     (let got = stripMarkers (goType H arg)
      in if got = [] then mkRecTypName (Name arg) else got)"

text \<open>Lines 166 to 170: the wire type and the rendered options.\<close>

definition fieldTyp :: "helpers \<Rightarrow> flags \<Rightarrow> argument \<Rightarrow> string" where
  "fieldTyp H F arg = fst (protoType F (fieldGot H arg) (Name arg))"

definition fieldOptS :: "helpers \<Rightarrow> flags \<Rightarrow> argument \<Rightarrow> string" where
  "fieldOptS H F arg =
     (let s = protoOptions_String (rangeOrder H) (snd (protoType F (fieldGot H arg) (Name arg)))
      in if s \<noteq> [] then '' '' @ s else [])"

text \<open>
  Line 171.  A table without \<^verbatim>\<open>TableOf\<close> has left the loop at line 151, so the
  \<open>None\<close> case is never reached.
\<close>

definition isScalar :: "argument \<Rightarrow> bool" where
  "isScalar arg =
     (Flavor arg = FLAVOR_SIMPLE \<or>
      Flavor arg = FLAVOR_TABLE \<and>
        (case TableOf arg of None \<Rightarrow> False | Some t \<Rightarrow> Flavor t = FLAVOR_SIMPLE))"

text \<open>The two \<^verbatim>\<open>Fprintf\<close> calls of lines 172 and 198; \<open>i\<close> is the loop index.\<close>

definition scalarLine :: "helpers \<Rightarrow> flags \<Rightarrow> nat \<Rightarrow> argument \<Rightarrow> string" where
  "scalarLine H F i arg =
     TAB @ ''// '' @ AbsType arg @ NL @
     TAB @ fieldRule H arg @ fieldTyp H F arg @ '' '' @ Name arg @ '' = '' @ fmt_d (i + 1) @
     fieldOptS H F arg @ '';'' @ NL"

definition refLine :: "helpers \<Rightarrow> flags \<Rightarrow> nat \<Rightarrow> argument \<Rightarrow> string" where
  "refLine H F i arg =
     TAB @ fieldRule H arg @ CamelCase H (fieldTyp H F arg) @ '' '' @ Name arg @ '' = '' @
     fmt_d (i + 1) @ fieldOptS H F arg @ '';'' @ NL"

text \<open>The text that the loop writes to \<^verbatim>\<open>dst\<close> for the argument at index \<open>k\<close>.\<close>

definition fieldLine :: "helpers \<Rightarrow> flags \<Rightarrow> nat \<Rightarrow> argument \<Rightarrow> string" where
  "fieldLine H F k arg0 =
     (let arg = hideName H arg0 in
      (if isScalar arg then TAB @ ''// '' @ AbsType arg @ NL else []) @
      TAB @ fieldRule H arg @
      (if isScalar arg then fieldTyp H F arg else CamelCase H (fieldTyp H F arg)) @
      '' '' @ Name arg @ '' = '' @ fmt_d (k + 1) @ fieldOptS H F arg @ '';'' @ NL)"

text \<open>Lines 178 to 191.\<close>

definition subArgs :: "argument \<Rightarrow> argument list" where
  "subArgs arg =
     (case TableOf arg of
        Some t \<Rightarrow> (case RecordOf t of None \<Rightarrow> [t] | Some rs \<Rightarrow> map snd rs)
      | None \<Rightarrow> (case RecordOf arg of None \<Rightarrow> [] | Some rs \<Rightarrow> map snd rs))"

lemma size_map_snd: "size_list size (map snd rs) \<le> size_list (size_prod (\<lambda>_. 0) size) rs"
  by (induction rs) auto

lemma size_subArgs: "size_list size (subArgs arg) \<le> size arg"
proof (cases arg)
  case (Argument n d f a t r)
  show ?thesis
  proof (cases t)
    case None
    then show ?thesis
      using Argument size_map_snd [of "the r"]
      by (cases r) (simp_all add: subArgs_def)
  next
    case (Some u)
    then show ?thesis
    proof (cases "RecordOf u")
      case None
      then show ?thesis using Argument Some by (simp add: subArgs_def)
    next
      case (Some rs)
      obtain n' d' f' a' t' r' where u: "u = Argument n' d' f' a' t' r'" by (cases u)
      with Some have "r' = Some rs" by simp
      then have "size_list size (map snd rs) \<le> size u"
        using size_map_snd [of rs] u by simp
      then show ?thesis using Argument \<open>t = Some u\<close> Some by (simp add: subArgs_def)
    qed
  qed
qed

lemma setName_sel [simp]:
  "Name (setName n a) = n"
  "Direction (setName n a) = Direction a"
  "Flavor (setName n a) = Flavor a"
  "AbsType (setName n a) = AbsType a"
  "TableOf (setName n a) = TableOf a"
  "RecordOf (setName n a) = RecordOf a"
  by (simp_all add: setName_def)

lemma hideName_sel [simp]:
  "Direction (hideName H a) = Direction a"
  "Flavor (hideName H a) = Flavor a"
  "AbsType (hideName H a) = AbsType a"
  "TableOf (hideName H a) = TableOf a"
  "RecordOf (hideName H a) = RecordOf a"
  by (simp_all add: hideName_def)

lemma subArgs_hideName: "subArgs (hideName H arg) = subArgs arg"
  by (simp add: subArgs_def split: option.splits)

lemma size_subArgs_hideName:
  "2 * size_list size (subArgs (hideName H arg)) < Suc (2 * size arg + n)"
  using size_subArgs [of arg] by (simp add: subArgs_hideName)

text \<open>
  \<^verbatim>\<open>protoWriteMessageTyp\<close>.  Every caller in the file passes a \<^verbatim>\<open>bytes.Buffer\<close> as
  \<^verbatim>\<open>dst\<close> (the buffer of \<^verbatim>\<open>Function.SaveProtobuf\<close>, or the one taken from \<^verbatim>\<open>buffers\<close>,
  which is empty), whose \<^verbatim>\<open>Write\<close> appends and returns no error.  The result is the
  error (\<open>None\<close> for nil), the text written to \<^verbatim>\<open>dst\<close>, and the registry \<^verbatim>\<open>seen\<close> as the
  call leaves it: the map is shared, so what a failing call has added stays.
  \<open>protoFields\<close> is the loop of lines 144 to 199 from index \<open>i\<close> on: \<open>w\<close> is what has
  been written to \<^verbatim>\<open>dst\<close>, \<open>buf\<close> the side buffer of nested messages.
\<close>

function protoWriteMessageTyp ::
    "helpers \<Rightarrow> flags \<Rightarrow> string \<Rightarrow> string set \<Rightarrow> argument list \<Rightarrow>
     error option \<times> string \<times> string set"
  and protoFields ::
    "helpers \<Rightarrow> flags \<Rightarrow> string \<Rightarrow> string set \<Rightarrow> nat \<Rightarrow> argument list \<Rightarrow> string \<Rightarrow> string \<Rightarrow>
     error option \<times> string \<times> string \<times> string set"
  where
  "protoWriteMessageTyp H F msgName seen args =
     (case find missingTableOf args of
        Some arg \<Rightarrow> (Some (Wrapf ErrMissingTableOf msgName arg), [], seen)
      | None \<Rightarrow>
          (case protoFields H F msgName seen 0 args (NL @ ''message '' @ msgName @ '' {'' @ NL) [] of
             (Some e, w, buf, seen') \<Rightarrow> (Some e, w, seen')
           | (None, w, buf, seen') \<Rightarrow> (None, w @ ''}'' @ NL @ buf, seen')))"
| "protoFields H F msgName seen i [] w buf = (None, w, buf, seen)"
| "protoFields H F msgName seen i (arg0 # rest) w buf =
     (if missingTableOf (hideName H arg0)
      then (Some (Wrapf ErrMissingTableOf msgName (hideName H arg0)), w, buf, seen)
      else if isScalar (hideName H arg0)
      then protoFields H F msgName seen (Suc i) rest (w @ scalarLine H F i (hideName H arg0)) buf
      else if CamelCase H (fieldTyp H F (hideName H arg0)) \<in> seen
      then protoFields H F msgName seen (Suc i) rest (w @ refLine H F i (hideName H arg0)) buf
      else
        (case protoWriteMessageTyp H F (CamelCase H (fieldTyp H F (hideName H arg0))) seen
                (subArgs (hideName H arg0)) of
           (Some e, txt, seen') \<Rightarrow> (Some e, w, buf @ txt, seen')
         | (None, txt, seen') \<Rightarrow>
             protoFields H F msgName (insert (CamelCase H (fieldTyp H F (hideName H arg0))) seen')
               (Suc i) rest (w @ refLine H F i (hideName H arg0)) (buf @ txt)))"
  by pat_completeness auto
termination
  by (relation "measure (\<lambda>x. case x of
          Inl (H, F, m, s, args) \<Rightarrow> 2 * size_list size args + 1
        | Inr (H, F, m, s, i, args, w, buf) \<Rightarrow> 2 * size_list size args)")
     (simp_all add: size_subArgs_hideName)

declare protoWriteMessageTyp.simps [simp del]

text \<open>
  The messages that the emission of the message \<open>m\<close> with the arguments \<open>args\<close> can
  build: the message itself and, for each argument that is not written as a scalar,
  the messages of the nested message that line 192 builds for it.  An error is owned
  when it is \<^verbatim>\<open>ErrMissingTableOf\<close> wrapped with the name of one of these messages and
  with one of that message's arguments, a table without \<^verbatim>\<open>TableOf\<close>.
\<close>

lemma size_member: "b \<in> set args \<Longrightarrow> size (b :: argument) < size_list size args"
  by (induction args) auto

function messages :: "helpers \<Rightarrow> flags \<Rightarrow> string \<Rightarrow> argument list \<Rightarrow> (string \<times> argument list) list" where
  "messages H F m args =
     (m, args) #
     concat (map (\<lambda>b. messages H F (CamelCase H (fieldTyp H F (hideName H b)))
                          (subArgs (hideName H b)))
               (filter (\<lambda>b. \<not> isScalar (hideName H b)) args))"
  by pat_completeness auto
termination
proof (relation "measure (\<lambda>(H, F, m, args). size_list size args)", goal_cases)
  case 1
  show ?case by simp
next
  case (2 H F m args b)
  then show ?case
    using size_member [of b args] size_subArgs [of b] by (simp add: subArgs_hideName)
qed

declare messages.simps [simp del]

definition ownedError :: "helpers \<Rightarrow> flags \<Rightarrow> string \<Rightarrow> argument list \<Rightarrow> error \<Rightarrow> bool" where
  "ownedError H F m args e =
     (\<exists>(m', args') \<in> set (messages H F m args). \<exists>a \<in> set args'.
        missingTableOf a \<and> e = Wrapf ErrMissingTableOf m' a)"


section \<open>The service emitter\<close>

text \<open>\<^verbatim>\<open>Function.saveProtobufDir\<close>: the arguments of one direction, then the message.\<close>

definition selectArgs :: "Function \<Rightarrow> bool \<Rightarrow> argument list" where
  "selectArgs f out =
     filter (\<lambda>arg. Direction arg AND (if out then DIR_OUT else DIR_IN) > 0) (Args f) @
     (if out then (case Returns f of Some r \<Rightarrow> [r] | None \<Rightarrow> []) else [])"

definition dirname :: "bool \<Rightarrow> string" where
  "dirname out = (if out then ''output'' else ''input'')"

definition Function_saveProtobufDir ::
    "helpers \<Rightarrow> flags \<Rightarrow> Function \<Rightarrow> string set \<Rightarrow> bool \<Rightarrow> error option \<times> string \<times> string set" where
  "Function_saveProtobufDir H F f seen out =
     protoWriteMessageTyp H F
       (CamelCase H (dot2D (ToLower (name f)) @ ''__'' @ dirname out)) seen (selectArgs f out)"

text \<open>
  A writer is the \<^verbatim>\<open>Write\<close> method of an \<^verbatim>\<open>io.Writer\<close> over the writer's state: it
  returns the new state and the error.
\<close>

type_synonym 'w Writer = "'w \<Rightarrow> string \<Rightarrow> 'w \<times> error option"

text \<open>
  \<^verbatim>\<open>Function.SaveProtobuf\<close>: both directions go to the local buffer, and the buffer is
  written to \<^verbatim>\<open>dst\<close> in one \<^verbatim>\<open>Write\<close>.  The result is the error, the state of \<^verbatim>\<open>dst\<close>
  and the registry.
\<close>

definition Function_SaveProtobuf ::
    "helpers \<Rightarrow> flags \<Rightarrow> 'w Writer \<Rightarrow> Function \<Rightarrow> 'w \<Rightarrow> string set \<Rightarrow> error option \<times> 'w \<times> string set" where
  "Function_SaveProtobuf H F W f dst seen =
     (case Function_saveProtobufDir H F f seen False of
        (Some e, buf1, seen1) \<Rightarrow> (Some (Wrap e ''input''), dst, seen1)
      | (None, buf1, seen1) \<Rightarrow>
          (case Function_saveProtobufDir H F f seen1 True of
             (Some e, buf2, seen2) \<Rightarrow> (Some (Wrap e ''output''), dst, seen2)
           | (None, buf2, seen2) \<Rightarrow>
               (case W dst (buf1 @ buf2) of (dst', err) \<Rightarrow> (err, dst', seen2))))"

text \<open>
  Modelled from the spec: \<^verbatim>\<open>Function.getStructName\<close> is declared outside
  \<^verbatim>\<open>lib/proto.go\<close>.  The spec has the names of an rpc line "derived identically to
  [the message name]": the function name lower-cased, dots replaced with double
  underscore, suffixed \<^verbatim>\<open>__input\<close> or \<^verbatim>\<open>__output\<close>; \<^verbatim>\<open>SaveProtobuf\<close> title-cases the
  result.  The file calls it without the package only.
\<close>

definition getStructName :: "Function \<Rightarrow> bool \<Rightarrow> bool \<Rightarrow> string" where
  "getStructName f out withPackage = dot2D (ToLower (name f)) @ ''__'' @ dirname out"

text \<open>Lines 68 to 85: the entry of the service block for one function.\<close>

definition rpcLine :: "helpers \<Rightarrow> Function \<Rightarrow> string" where
  "rpcLine H f =
     (let fName = ToLower (name f);
          streamQual = (if HasCursorOut H f then ''stream '' else []);
          comment = (if Documentation f \<noteq> []
                     then NL @ ''/// '' @ ReplaceChar (CHR 0x0A) (NL @ ''/// '') (Documentation f) @
                          NL @ TAB
                     else [])
      in comment @ ''rpc '' @ CamelCase H (dot2D fName) @
         '' ('' @ CamelCase H (getStructName f False False) @
         '') returns ('' @ streamQual @ CamelCase H (getStructName f True False) @ '') {}'')"

text \<open>
  The loop \<^verbatim>\<open>FunLoop\<close> of \<^verbatim>\<open>SaveProtobuf\<close>, over the state of the writer \<^verbatim>\<open>w\<close>, the
  registry and the service entries collected so far.
\<close>

fun FunLoop ::
    "helpers \<Rightarrow> flags \<Rightarrow> 'w Writer \<Rightarrow> Function list \<Rightarrow> 'w \<Rightarrow> string set \<Rightarrow> string list \<Rightarrow>
     error option \<times> 'w \<times> string set \<times> string list" where
  "FunLoop H F W [] w seen services = (None, w, seen, services)"
| "FunLoop H F W (f # rest) w seen services =
     (case Function_SaveProtobuf H F W f w seen of
        (Some err, w', seen') \<Rightarrow>
          (if SkipMissingTableOf F \<and> Cause err = ErrMissingTableOf
           then FunLoop H F W rest w' seen' services
           else (Some err, w', seen', services))
      | (None, w', seen') \<Rightarrow> FunLoop H F W rest w' seen' (services @ [rpcLine H f]))"

text \<open>
  \<^verbatim>\<open>SaveProtobuf\<close>.  \<open>W\<close> is the \<^verbatim>\<open>Write\<close> method of \<^verbatim>\<open>w\<close>, the \<^verbatim>\<open>errWriter\<close> around the
  destination, whose type is declared outside the file; \<open>w0\<close> is its state at the
  start.  The results of the writes of \<^verbatim>\<open>SaveProtobuf\<close> itself are dropped, as in the
  source, and the variable \<^verbatim>\<open>err\<close> of line 41 is never read: the function returns the
  error of a function's emission, or nil.
\<close>

definition writeHeader :: "flags \<Rightarrow> 'w Writer \<Rightarrow> 'w \<Rightarrow> string \<Rightarrow> 'w" where
  "writeHeader F W w0 pkg =
     (let w1 = fst (W w0 (''syntax = '' @ [DQ] @ ''proto3'' @ [DQ] @ '';'' @ NL @ NL));
          w2 = (if pkg \<noteq> [] then fst (W w1 (''package '' @ pkg @ '';'' @ NL)) else w1)
      in if Gogo F
         then fst (W w2 (NL @ TAB @ ''import '' @ [DQ] @
                   ''github.com/gogo/protobuf/gogoproto/gogo.proto'' @ [DQ] @ '';'' @ NL))
         else w2)"

definition writeService :: "helpers \<Rightarrow> 'w Writer \<Rightarrow> 'w \<Rightarrow> string \<Rightarrow> string list \<Rightarrow> 'w" where
  "writeService H W w4 pkg services =
     (let w5 = fst (W w4 (NL @ ''service '' @ CamelCase H pkg @ '' {'' @ NL));
          w6 = fold (\<lambda>s w. fst (W w (TAB @ s @ NL))) services w5
      in fst (W w6 ''}''))"

text \<open>What follows the loop: the error that left it, or the service block and nil.\<close>

definition afterLoop ::
    "helpers \<Rightarrow> 'w Writer \<Rightarrow> string \<Rightarrow> error option \<times> 'w \<times> string set \<times> string list \<Rightarrow>
     error option \<times> 'w" where
  "afterLoop H W pkg r =
     (case r of
        (Some err, w4, seen, services) \<Rightarrow> (Some err, w4)
      | (None, w4, seen, services) \<Rightarrow> (None, writeService H W w4 pkg services))"

definition SaveProtobuf ::
    "helpers \<Rightarrow> flags \<Rightarrow> 'w Writer \<Rightarrow> 'w \<Rightarrow> Function list \<Rightarrow> string \<Rightarrow> error option \<times> 'w" where
  "SaveProtobuf H F W w0 functions pkg =
     afterLoop H W pkg (FunLoop H F W functions (writeHeader F W w0 pkg) {} [])"

text \<open>
  An error that names a message and a table argument without \<^verbatim>\<open>TableOf\<close>, as line 134
  builds it.
\<close>

fun namesMissingTableOf :: "error \<Rightarrow> bool" where
  "namesMissingTableOf (Wrapf e m a) = (e = ErrMissingTableOf \<and> missingTableOf a)"
| "namesMissingTableOf e = False"

text \<open>
  Two destinations: a \<^verbatim>\<open>bytes.Buffer\<close>, which takes every write, and a destination
  that takes none (a closed file).
\<close>

definition bufferWrite :: "string Writer" where
  "bufferWrite b p = (b @ p, None)"

definition closedWrite :: "string Writer" where
  "closedWrite b p = (b, Some (IOError ''file already closed''))"

section \<open>An instance of the parameters\<close>

text \<open>
  Modelled from the spec: \<^verbatim>\<open>CamelCase\<close>, \<^verbatim>\<open>replHidden\<close>, \<^verbatim>\<open>goType\<close> and \<^verbatim>\<open>HasCursorOut\<close>
  are declared outside \<^verbatim>\<open>lib/proto.go\<close>.  The instance below is used to run the
  emitter on examples.  \<open>exCamelCase\<close> title-cases into an identifier (the spec's
  \<^verbatim>\<open>get_emp__input\<close> becomes \<^verbatim>\<open>GetEmpInput\<close>); \<open>exReplHidden\<close> replaces the trailing
  marker (the spec's \<^verbatim>\<open>count#\<close> becomes \<^verbatim>\<open>count_\<close>); \<open>exGoType\<close> reads the native type
  label: a 32-bit integer, a 64-bit float, text and a date for scalars, a slice of
  these for a table of scalars, and the empty descriptor for everything else.
\<close>

definition upperChar :: "char \<Rightarrow> char" where
  "upperChar c =
     (case map_of (zip ''abcdefghijklmnopqrstuvwxyz'' ''ABCDEFGHIJKLMNOPQRSTUVWXYZ'') c of
        Some d \<Rightarrow> d
      | None \<Rightarrow> c)"

fun camel :: "bool \<Rightarrow> string \<Rightarrow> string" where
  "camel up [] = []"
| "camel up (c # cs) =
     (if c = CHR ''_'' then camel True cs
      else (if up then upperChar c else lowerChar c) # camel False cs)"

definition exCamelCase :: "string \<Rightarrow> string" where
  "exCamelCase s = camel True s"

definition exReplHidden :: "string \<Rightarrow> string" where
  "exReplHidden s = (if HasSuffix s ''#'' then butlast s @ ''_'' else s)"

definition exSimpleType :: "string \<Rightarrow> string" where
  "exSimpleType t =
     (case map_of [(''PLS_INTEGER'', ''int32''), (''BINARY_DOUBLE'', ''float64''),
                   (''VARCHAR2'', ''string''), (''DATE'', ''time.Time'')] t of
        Some g \<Rightarrow> g
      | None \<Rightarrow> [])"

definition exGoType :: "argument \<Rightarrow> string" where
  "exGoType a =
     (case Flavor a of
        FLAVOR_SIMPLE \<Rightarrow> exSimpleType (AbsType a)
      | FLAVOR_TABLE \<Rightarrow>
          (case TableOf a of
             Some t \<Rightarrow> (if Flavor t = FLAVOR_SIMPLE then ''[]'' @ exSimpleType (AbsType t) else [])
           | None \<Rightarrow> [])
      | FLAVOR_RECORD \<Rightarrow> [])"

definition exHelpers :: helpers where
  "exHelpers = \<lparr> goType = exGoType, CamelCase = exCamelCase, replHidden = exReplHidden,
                 HasCursorOut = (\<lambda>f. False), rangeOrder = (\<lambda>opts. opts) \<rparr>"

definition exFlags :: "bool \<Rightarrow> bool \<Rightarrow> flags" where
  "exFlags skip nas = \<lparr> SkipMissingTableOf = skip, Gogo = False, NumberAsString = nas \<rparr>"

text \<open>
  The function of the spec's end-to-end example: \<^verbatim>\<open>get_emp\<close> with \<^verbatim>\<open>p_id\<close> (IN, 32-bit
  integer) and \<^verbatim>\<open>p_emp\<close> (OUT, a record of \<^verbatim>\<open>name\<close> and \<^verbatim>\<open>salary\<close>).
\<close>

definition scalarArg :: "string \<Rightarrow> 8 word \<Rightarrow> string \<Rightarrow> argument" where
  "scalarArg n d t = Argument n d FLAVOR_SIMPLE t None None"

definition get_emp :: Function where
  "get_emp = \<lparr> name = ''GET_EMP'',
               Args = [scalarArg ''p_id'' DIR_IN ''PLS_INTEGER'',
                       Argument ''p_emp'' DIR_OUT FLAVOR_RECORD ''EMP%ROWTYPE'' None
                         (Some [(''name'', scalarArg ''name'' DIR_OUT ''VARCHAR2''),
                                (''salary'', scalarArg ''salary'' DIR_OUT ''BINARY_DOUBLE'')])],
               Returns = None, Documentation = [] \<rparr>"

text \<open>A function whose output holds a table without the description of its elements.\<close>

definition broken_out :: Function where
  "broken_out = \<lparr> name = ''BROKEN'',
                  Args = [scalarArg ''p_id'' DIR_IN ''PLS_INTEGER'',
                          Argument ''p_tab'' DIR_OUT FLAVOR_TABLE ''TAB_TYP'' None None],
                  Returns = None, Documentation = [] \<rparr>"

text \<open>A table of scalars, and a function with a return value.\<close>

definition amounts_tab :: argument where
  "amounts_tab = Argument ''amounts'' DIR_IN FLAVOR_TABLE ''NUM_TAB''
                   (Some (scalarArg ''amounts'' DIR_IN ''BINARY_DOUBLE'')) None"

definition calc :: Function where
  "calc = \<lparr> name = ''PKG.CALC'',
            Args = [scalarArg ''a'' DIR_IN ''PLS_INTEGER'',
                    scalarArg ''b'' (DIR_IN OR DIR_OUT) ''BINARY_DOUBLE'',
                    scalarArg ''c'' DIR_OUT ''VARCHAR2''],
            Returns = Some (scalarArg ''ret'' DIR_OUT ''PLS_INTEGER''),
            Documentation = ''Calculates.'' \<rparr>"

text \<open>
  More arguments for the examples: a record without a type name that holds, under the
  same field name, another record without a type name; a table without \<^verbatim>\<open>TableOf\<close>;
  a hidden argument and an argument of a type that \<open>exGoType\<close> does not know; a 64-bit
  float.
\<close>

definition nested_same :: argument where
  "nested_same = Argument ''x'' DIR_IN FLAVOR_RECORD ''REC'' None
     (Some [(''x'', Argument ''x'' DIR_IN FLAVOR_RECORD ''REC2'' None
                      (Some [(''y'', scalarArg ''y'' DIR_IN ''VARCHAR2'')]))])"

definition twice :: Function where
  "twice = \<lparr> name = ''TWICE'', Args = [nested_same], Returns = None, Documentation = [] \<rparr>"

definition empty_tab :: argument where
  "empty_tab = Argument ''t'' DIR_IN FLAVOR_TABLE ''TAB_TYP'' None None"

definition hidden_arg :: argument where
  "hidden_arg = scalarArg ''x#'' DIR_IN ''UNKNOWN''"

definition amount_arg :: argument where
  "amount_arg = scalarArg ''amount'' DIR_IN ''BINARY_DOUBLE''"

definition cnt_arg :: argument where
  "cnt_arg = scalarArg ''Cnt'' DIR_IN ''UNKNOWN''"

text \<open>The texts the examples produce.\<close>

definition header_text :: string where
  "header_text = ''syntax = '' @ [DQ] @ ''proto3'' @ [DQ] @ '';'' @ NL @ NL @ ''package emp;'' @ NL"

definition get_emp_text :: string where
  "get_emp_text =
     NL @ ''message GetEmpInput {'' @ NL @
     TAB @ ''// PLS_INTEGER'' @ NL @
     TAB @ ''sint32 p_id = 1;'' @ NL @
     ''}'' @ NL @
     NL @ ''message GetEmpOutput {'' @ NL @
     TAB @ ''PEmpRekTyp p_emp = 1;'' @ NL @
     ''}'' @ NL @
     NL @ ''message PEmpRekTyp {'' @ NL @
     TAB @ ''// VARCHAR2'' @ NL @
     TAB @ ''string name = 1;'' @ NL @
     TAB @ ''// BINARY_DOUBLE'' @ NL @
     TAB @ ''double salary = 2;'' @ NL @
     ''}'' @ NL"

definition get_emp_rpc :: string where
  "get_emp_rpc = ''rpc GetEmp (GetEmpInput) returns (GetEmpOutput) {}''"

definition broken_out_error :: error where
  "broken_out_error =
     Wrap (Wrapf ErrMissingTableOf ''BrokenOutput''
             (Argument ''p_tab'' DIR_OUT FLAVOR_TABLE ''TAB_TYP'' None None)) ''output''"


lemmas string_defs =
  HasPrefix_def HasSuffix_def TrimPrefix_def lowerChar_def upperChar_def ToLower_def
  ReplaceChar_def dot2D_def digitChar_def fmt_d.simps fmt_t_def quoteChar_def fmt_q_def

lemmas emit_defs =
  protoType_def protoOptions_String_def mkRecTypName_def missingTableOf_def hideName_def
  fieldRule_def stripMarkers_def fieldGot_def fieldTyp_def fieldOptS_def isScalar_def scalarLine_def
  refLine_def subArgs_def setName_def protoWriteMessageTyp.simps selectArgs_def dirname_def
  Function_saveProtobufDir_def Function_SaveProtobuf_def getStructName_def rpcLine_def
  SaveProtobuf_def writeHeader_def writeService_def afterLoop_def DIR_IN_def DIR_OUT_def

lemmas ex_defs =
  exCamelCase_def exReplHidden_def exSimpleType_def exGoType_def exHelpers_def exFlags_def
  scalarArg_def get_emp_def broken_out_def amounts_tab_def calc_def bufferWrite_def
  closedWrite_def nested_same_def twice_def empty_tab_def hidden_arg_def amount_arg_def
  cnt_arg_def

lemmas text_defs = header_text_def get_emp_text_def get_emp_rpc_def broken_out_error_def

section \<open>The errors of the emitter\<close>

lemma messages_self: "(m, args) \<in> set (messages H F m args)"
  by (subst messages.simps) simp

lemma messages_nested:
  "b \<in> set args \<Longrightarrow> \<not> isScalar (hideName H b) \<Longrightarrow>
   x \<in> set (messages H F (CamelCase H (fieldTyp H F (hideName H b))) (subArgs (hideName H b))) \<Longrightarrow>
   x \<in> set (messages H F m args)"
  by (subst messages.simps) auto

lemma ownedError_direct:
  "a \<in> set args \<Longrightarrow> missingTableOf a \<Longrightarrow> ownedError H F m args (Wrapf ErrMissingTableOf m a)"
  unfolding ownedError_def using messages_self [of m args H F] by blast

lemma ownedError_nested:
  "b \<in> set args \<Longrightarrow> \<not> isScalar (hideName H b) \<Longrightarrow>
   ownedError H F (CamelCase H (fieldTyp H F (hideName H b))) (subArgs (hideName H b)) e \<Longrightarrow>
   ownedError H F m args e"
  unfolding ownedError_def using messages_nested [of b args H _ F m] by blast

lemma missingTableOf_hideName [simp]: "missingTableOf (hideName H a) = missingTableOf a"
  by (simp add: missingTableOf_def)

lemma emit_error_owner:
  "fst (protoWriteMessageTyp H F m seen args) = Some e \<Longrightarrow> ownedError H F m args e"
  "\<forall>b \<in> set args. \<not> missingTableOf b \<Longrightarrow>
   fst (protoFields H F m seen i args w buf) = Some e \<Longrightarrow>
   \<exists>b \<in> set args. \<not> isScalar (hideName H b) \<and>
     ownedError H F (CamelCase H (fieldTyp H F (hideName H b))) (subArgs (hideName H b)) e"
proof (induction H F m seen args and H F m seen i args w buf arbitrary: e and e
    rule: protoWriteMessageTyp_protoFields.induct)
  case (1 H F msgName seen args)
  show ?case
  proof (cases "find missingTableOf args")
    case None
    then have no: "\<forall>b \<in> set args. \<not> missingTableOf b"
      by (auto simp: find_None_iff)
    from 1(2) None
    have "fst (protoFields H F msgName seen 0 args (NL @ ''message '' @ msgName @ '' {'' @ NL) [])
            = Some e"
      by (auto simp: protoWriteMessageTyp.simps split: prod.splits option.splits)
    from 1(1) [OF None no this] show ?thesis
      by (blast intro: ownedError_nested)
  next
    case (Some a)
    then have "missingTableOf a" "a \<in> set args"
      by (auto simp: find_Some_iff)
    moreover from 1(2) Some have "e = Wrapf ErrMissingTableOf msgName a"
      by (simp add: protoWriteMessageTyp.simps)
    ultimately show ?thesis by (simp add: ownedError_direct)
  qed
next
  case (2 H F msgName seen i w buf)
  then show ?case by simp
next
  case (3 H F msgName seen i arg0 rest w buf)
  let ?a = "hideName H arg0"
  let ?t = "CamelCase H (fieldTyp H F ?a)"
  from "3.prems"(1) have n0: "\<not> missingTableOf ?a" and nr: "\<forall>b \<in> set rest. \<not> missingTableOf b"
    by simp_all
  show ?case
  proof (cases "isScalar ?a")
    case True
    with n0 "3.prems"(2) have "fst (protoFields H F msgName seen (Suc i) rest
        (w @ scalarLine H F i ?a) buf) = Some e" by simp
    from "3.IH"(1) [OF n0 True nr this] show ?thesis by auto
  next
    case False
    show ?thesis
    proof (cases "?t \<in> seen")
      case True
      with n0 False "3.prems"(2) have "fst (protoFields H F msgName seen (Suc i) rest
          (w @ refLine H F i ?a) buf) = Some e" by simp
      from "3.IH"(2) [OF n0 False True nr this] show ?thesis by auto
    next
      case notin: False
      obtain eo tx seen' where r: "protoWriteMessageTyp H F ?t seen (subArgs ?a) = (eo, tx, seen')"
        by (cases "protoWriteMessageTyp H F ?t seen (subArgs ?a)") auto
      show ?thesis
      proof (cases eo)
        case None
        with n0 False notin r "3.prems"(2)
        have "fst (protoFields H F msgName (insert ?t seen') (Suc i) rest
            (w @ refLine H F i ?a) (buf @ tx)) = Some e" by simp
        from "3.IH"(4) [OF n0 False notin r [symmetric] None refl nr this]
        show ?thesis by auto
      next
        case (Some e')
        with n0 False notin r "3.prems"(2) have "e = e'" by simp
        with "3.IH"(3) [OF n0 False notin, of e] r Some
        have "ownedError H F ?t (subArgs ?a) e" by simp
        with False show ?thesis by auto
      qed
    qed
  qed
qed


lemma ownedError_names: "ownedError H F m args e \<Longrightarrow> namesMissingTableOf e"
  by (auto simp: ownedError_def)

lemma saveProtobufDir_error_owner:
  assumes "Function_saveProtobufDir H F f seen out = (Some e, r)"
  shows "ownedError H F (CamelCase H (dot2D (ToLower (name f)) @ ''__'' @ dirname out))
           (selectArgs f out) e"
proof -
  from assms have "fst (Function_saveProtobufDir H F f seen out) = Some e"
    by simp
  then show ?thesis
    unfolding Function_saveProtobufDir_def by (rule emit_error_owner(1))
qed

lemma emit_errors:
  "fst (protoWriteMessageTyp H F m seen args) = Some e \<Longrightarrow> namesMissingTableOf e"
  by (blast dest: emit_error_owner(1) ownedError_names)

lemma namesMissingTableOf_shape:
  "namesMissingTableOf e \<Longrightarrow>
     \<exists>m a. e = Wrapf ErrMissingTableOf m a \<and> Flavor a = FLAVOR_TABLE \<and> TableOf a = None"
  by (cases e rule: namesMissingTableOf.cases) (auto simp: missingTableOf_def)

lemma Function_SaveProtobuf_error:
  assumes "Function_SaveProtobuf H F W f w seen = (Some e, w', seen')"
  shows "(\<exists>e0 out. e = Wrap e0 (dirname out) \<and> w' = w \<and>
            ownedError H F (CamelCase H (dot2D (ToLower (name f)) @ ''__'' @ dirname out))
              (selectArgs f out) e0) \<or>
         (\<exists>p. W w p = (w', Some e))"
proof (cases "Function_saveProtobufDir H F f seen False")
  case (fields e1 buf1 seen1)
  show ?thesis
  proof (cases e1)
    case (Some e0)
    with fields assms have "e = Wrap e0 (dirname False)" "w' = w"
      by (simp_all add: Function_SaveProtobuf_def dirname_def)
    with saveProtobufDir_error_owner [of H F f seen False e0] fields Some show ?thesis
      by blast
  next
    case None
    show ?thesis
    proof (cases "Function_saveProtobufDir H F f seen1 True")
      case second: (fields e2 buf2 seen2)
      show ?thesis
      proof (cases e2)
        case (Some e0)
        with fields None second assms have "e = Wrap e0 (dirname True)" "w' = w"
          by (simp_all add: Function_SaveProtobuf_def dirname_def)
        with saveProtobufDir_error_owner [of H F f seen1 True e0] second Some show ?thesis
          by blast
      next
        case n2: None
        with fields None second assms have "W w (buf1 @ buf2) = (w', Some e)"
          by (auto simp: Function_SaveProtobuf_def split: prod.splits)
        then show ?thesis by blast
      qed
    qed
  qed
qed

lemma FunLoop_append:
  "FunLoop H F W (pre @ rest) w seen services =
     (case FunLoop H F W pre w seen services of
        (None, w1, seen1, services1) \<Rightarrow> FunLoop H F W rest w1 seen1 services1
      | (Some e, r) \<Rightarrow> (Some e, r))"
  by (induction pre arbitrary: w seen services) (auto split: prod.splits option.splits)

lemma FunLoop_skip_no_error:
  assumes "SkipMissingTableOf F" and "\<And>w p. snd (W w p) = None"
  shows "fst (FunLoop H F W fs w seen services) = None"
proof (induction fs arbitrary: w seen services)
  case Nil
  show ?case by simp
next
  case (Cons f fs)
  show ?case
  proof (cases "Function_SaveProtobuf H F W f w seen")
    case (fields eo w' seen')
    show ?thesis
    proof (cases eo)
      case None
      with fields Cons show ?thesis by simp
    next
      case (Some e)
      with fields Function_SaveProtobuf_error [of H F W f w seen e w' seen'] assms(2)
      obtain e0 d where "e = Wrap e0 d" "namesMissingTableOf e0"
        by (metis option.distinct(1) snd_conv ownedError_names)
      then have "Cause e = ErrMissingTableOf"
        by (auto dest: namesMissingTableOf_shape)
      with fields Some Cons assms(1) show ?thesis by simp
    qed
  qed
qed

section \<open>The text of a message\<close>

lemma fieldLine_cases:
  "isScalar (hideName H a) \<Longrightarrow> fieldLine H F k a = scalarLine H F k (hideName H a)"
  "\<not> isScalar (hideName H a) \<Longrightarrow> fieldLine H F k a = refLine H F k (hideName H a)"
  by (simp_all add: fieldLine_def scalarLine_def refLine_def Let_def)

lemma protoFields_text:
  "True"
  "protoFields H F m seen i args w buf = (None, w', buf', seen') \<Longrightarrow>
     w' = w @ concat (map (\<lambda>(k, a). fieldLine H F k a) (enumerate i args)) \<and>
     (\<exists>nested. buf' = buf @ nested)"
proof (induction H F m seen args and H F m seen i args w buf arbitrary: and w' buf' seen'
    rule: protoWriteMessageTyp_protoFields.induct)
  case (1 H F msgName seen args)
  show ?case by simp
next
  case (2 H F msgName seen i w buf)
  then show ?case by simp
next
  case (3 H F msgName seen i arg0 rest w buf)
  show ?case
  proof (cases "isScalar (hideName H arg0)")
    case True
    with 3(1)[of w' buf' seen'] 3(5) show ?thesis
      by (simp add: fieldLine_cases split: if_splits)
  next
    case False
    show ?thesis
    proof (cases "CamelCase H (fieldTyp H F (hideName H arg0)) \<in> seen")
      case True
      with False 3(2)[of w' buf' seen'] 3(5) show ?thesis
        by (simp add: fieldLine_cases split: if_splits)
    next
      case notin: False
      with False 3(4) 3(5) show ?thesis
        by (fastforce simp: fieldLine_cases split: if_splits prod.splits option.splits)
    qed
  qed
qed

lemma protoWriteMessageTyp_text:
  assumes "protoWriteMessageTyp H F m seen args = (None, txt, seen')"
  shows "\<exists>nested. txt = NL @ ''message '' @ m @ '' {'' @ NL @
            concat (map (\<lambda>(k, a). fieldLine H F k a) (enumerate 0 args)) @ ''}'' @ NL @ nested"
  using assms protoFields_text(2) [of H F m seen 0 args "NL @ ''message '' @ m @ '' {'' @ NL" "[]"]
  by (auto simp: protoWriteMessageTyp.simps split: option.splits prod.splits)

lemma dir_bit:
  "(0 < (d :: 8 word) AND DIR_IN) = bit d 0"
  "(0 < (d :: 8 word) AND DIR_OUT) = bit d 1"
  using and_exp_eq_0_iff_not_bit [of d 0] and_exp_eq_0_iff_not_bit [of d 1]
  by (simp_all add: DIR_IN_def DIR_OUT_def word_gt_0)

section \<open>The policy for a table without its element description\<close>

text \<open>
  C1.  Take any function list \<open>pre @ f # rest\<close> in which the functions before \<open>f\<close> have
  been processed without leaving the loop, and let the emission of \<open>f\<close> fail with the
  cause \<^verbatim>\<open>ErrMissingTableOf\<close> (the writer itself never returns that error).  With the
  skip policy on, \<^verbatim>\<open>SaveProtobuf\<close> goes on with \<open>rest\<close> from the same writer state and
  the same service entries: \<open>f\<close> has left no message text and no rpc entry, and no error
  is returned for it.  With the policy off, \<^verbatim>\<open>SaveProtobuf\<close> stops and returns the
  error.  The error wraps \<^verbatim>\<open>ErrMissingTableOf\<close> with the name of a message that the
  emission of \<open>f\<close> builds and with an argument of that message, a table that has no
  \<^verbatim>\<open>TableOf\<close>.  And with the policy on and a writer that
  takes every write, \<^verbatim>\<open>SaveProtobuf\<close> returns no error on any function list.
\<close>

theorem SaveProtobuf_missing_TableOf:
  assumes io: "\<And>w p e. snd (W w p) = Some e \<Longrightarrow> Cause e \<noteq> ErrMissingTableOf"
    and pre: "FunLoop H F W pre (writeHeader F W w0 pkg) {} [] = (None, w, seen, services)"
    and fail: "Function_SaveProtobuf H F W f w seen = (Some e, w', seen')"
    and cause: "Cause e = ErrMissingTableOf"
  shows "SaveProtobuf H F W w0 (pre @ f # rest) pkg =
           (if SkipMissingTableOf F
            then afterLoop H W pkg (FunLoop H F W rest w seen' services)
            else (Some e, w)) \<and>
         (\<exists>out.
            \<exists>(m, args) \<in> set (messages H F
                (CamelCase H (dot2D (ToLower (name f)) @ ''__'' @ dirname out)) (selectArgs f out)).
            \<exists>a \<in> set args.
              Flavor a = FLAVOR_TABLE \<and> TableOf a = None \<and>
              e = Wrap (Wrapf ErrMissingTableOf m a) (dirname out)) \<and>
         (SkipMissingTableOf F \<and> (\<forall>w p. snd (W w p) = None) \<longrightarrow>
            fst (SaveProtobuf H F W w0 fs pkg) = None)"
proof -
  have never: "fst (SaveProtobuf H F W w0 fs pkg) = None"
    if "SkipMissingTableOf F" and "\<forall>w p. snd (W w p) = None"
    using FunLoop_skip_no_error [of F W H fs "writeHeader F W w0 pkg" "{}" "[]"] that
    by (cases "FunLoop H F W fs (writeHeader F W w0 pkg) {} []")
       (auto simp: SaveProtobuf_def afterLoop_def)
  from Function_SaveProtobuf_error [OF fail] io cause
  obtain e0 out where e: "e = Wrap e0 (dirname out)"
      "ownedError H F (CamelCase H (dot2D (ToLower (name f)) @ ''__'' @ dirname out))
         (selectArgs f out) e0"
    and w': "w' = w"
    by (metis snd_conv)
  from e have owner: "\<exists>out.
            \<exists>(m, args) \<in> set (messages H F
                (CamelCase H (dot2D (ToLower (name f)) @ ''__'' @ dirname out)) (selectArgs f out)).
            \<exists>a \<in> set args.
              Flavor a = FLAVOR_TABLE \<and> TableOf a = None \<and>
              e = Wrap (Wrapf ErrMissingTableOf m a) (dirname out)"
    unfolding ownedError_def missingTableOf_def by blast
  have "FunLoop H F W (f # rest) w seen services =
          (if SkipMissingTableOf F then FunLoop H F W rest w seen' services
           else (Some e, w, seen', services))"
    using fail cause w' by simp
  then have "SaveProtobuf H F W w0 (pre @ f # rest) pkg =
           (if SkipMissingTableOf F
            then afterLoop H W pkg (FunLoop H F W rest w seen' services)
            else (Some e, w))"
    using pre by (simp add: SaveProtobuf_def FunLoop_append afterLoop_def)
  with owner never show ?thesis by blast
qed

lemma get_emp_loop:
  "FunLoop exHelpers (exFlags sk False) bufferWrite [get_emp]
     (writeHeader (exFlags sk False) bufferWrite [] ''emp'') {} [] =
   (None, header_text @ get_emp_text, {''PEmpRekTyp''}, [get_emp_rpc])"
  by (simp add: string_defs emit_defs ex_defs text_defs)

lemma broken_out_fails:
  "Function_SaveProtobuf exHelpers (exFlags sk False) bufferWrite broken_out
     (header_text @ get_emp_text) {''PEmpRekTyp''} =
   (Some broken_out_error, header_text @ get_emp_text, {''PEmpRekTyp''})"
  by (simp add: string_defs emit_defs ex_defs text_defs)

lemma bufferWrite_no_error: "snd (bufferWrite w p) = Some e \<Longrightarrow> Cause e \<noteq> ErrMissingTableOf"
  by (simp add: bufferWrite_def)

theorem SaveProtobuf_missing_TableOf_witness:
  "(\<forall>w p. snd (bufferWrite w p) = None) \<and>
   Cause broken_out_error = ErrMissingTableOf \<and>
   SaveProtobuf exHelpers (exFlags True False) bufferWrite [] [get_emp, broken_out] ''emp'' =
     (None, header_text @ get_emp_text @
            NL @ ''service Emp {'' @ NL @ TAB @ get_emp_rpc @ NL @ ''}'') \<and>
   SaveProtobuf exHelpers (exFlags False False) bufferWrite [] [get_emp, broken_out] ''emp'' =
     (Some broken_out_error, header_text @ get_emp_text)"
proof -
  have c: "Cause broken_out_error = ErrMissingTableOf"
    by (simp add: broken_out_error_def)
  show ?thesis
    using SaveProtobuf_missing_TableOf [OF bufferWrite_no_error get_emp_loop [of True]
        broken_out_fails [of True] c, where rest = "[]" and fs = "[]"]
      SaveProtobuf_missing_TableOf [OF bufferWrite_no_error get_emp_loop [of False]
        broken_out_fails [of False] c, where rest = "[]" and fs = "[]"]
    by (simp add: c exFlags_def afterLoop_def writeService_def exHelpers_def exCamelCase_def
        upperChar_def lowerChar_def bufferWrite_def)
qed
section \<open>Atomic emission of one function\<close>

text \<open>
  C2.  \<^verbatim>\<open>Function.SaveProtobuf\<close> is atomic: when the emission of either direction fails
  (for the second direction, after the first one has produced its text), the call
  returns an error and the destination is left as it was, whatever the destination is.
  When both directions succeed the destination receives one write, the text of the two
  directions together.
\<close>

theorem Function_SaveProtobuf_atomic:
  assumes "Function_saveProtobufDir H F f seen False = (e1, buf1, seen1)"
    and "Function_saveProtobufDir H F f seen1 True = (e2, buf2, seen2)"
  shows "(e1 \<noteq> None \<or> e2 \<noteq> None \<longrightarrow>
            fst (Function_SaveProtobuf H F W f dst seen) \<noteq> None \<and>
            fst (snd (Function_SaveProtobuf H F W f dst seen)) = dst) \<and>
         (e1 = None \<and> e2 = None \<longrightarrow>
            Function_SaveProtobuf H F W f dst seen =
              (snd (W dst (buf1 @ buf2)), fst (W dst (buf1 @ buf2)), seen2))"
  using assms
  by (cases e1; cases e2) (simp_all add: Function_SaveProtobuf_def split: prod.splits)

lemma broken_out_input:
  "Function_saveProtobufDir exHelpers (exFlags True False) broken_out {} False =
     (None,
      NL @ ''message BrokenInput {'' @ NL @ TAB @ ''// PLS_INTEGER'' @ NL @ TAB @
      ''sint32 p_id = 1;'' @ NL @ ''}'' @ NL, {})"
  by (simp add: string_defs emit_defs ex_defs)

lemma broken_out_output:
  "Function_saveProtobufDir exHelpers (exFlags True False) broken_out {} True =
     (Some (Wrapf ErrMissingTableOf ''BrokenOutput''
              (Argument ''p_tab'' DIR_OUT FLAVOR_TABLE ''TAB_TYP'' None None)), [], {})"
  by (simp add: string_defs emit_defs ex_defs)

lemma get_emp_input:
  "Function_saveProtobufDir exHelpers (exFlags True False) get_emp {} False =
     (None,
      NL @ ''message GetEmpInput {'' @ NL @ TAB @ ''// PLS_INTEGER'' @ NL @ TAB @
      ''sint32 p_id = 1;'' @ NL @ ''}'' @ NL, {})"
  by (simp add: string_defs emit_defs ex_defs)

lemma get_emp_output:
  "Function_saveProtobufDir exHelpers (exFlags True False) get_emp {} True =
     (None,
      NL @ ''message GetEmpOutput {'' @ NL @ TAB @ ''PEmpRekTyp p_emp = 1;'' @ NL @ ''}'' @ NL @
      NL @ ''message PEmpRekTyp {'' @ NL @ TAB @ ''// VARCHAR2'' @ NL @ TAB @
      ''string name = 1;'' @ NL @ TAB @ ''// BINARY_DOUBLE'' @ NL @ TAB @
      ''double salary = 2;'' @ NL @ ''}'' @ NL, {''PEmpRekTyp''})"
  by (simp add: string_defs emit_defs ex_defs)

theorem Function_SaveProtobuf_atomic_witness:
  "fst (Function_saveProtobufDir exHelpers (exFlags True False) broken_out {} False) = None \<and>
   fst (Function_saveProtobufDir exHelpers (exFlags True False) broken_out {} True) \<noteq> None \<and>
   fst (Function_SaveProtobuf exHelpers (exFlags True False) bufferWrite broken_out ''syntax'' {})
     \<noteq> None \<and>
   fst (snd (Function_SaveProtobuf exHelpers (exFlags True False) bufferWrite broken_out
     ''syntax'' {})) = ''syntax'' \<and>
   fst (Function_saveProtobufDir exHelpers (exFlags True False) get_emp {} False) = None \<and>
   fst (Function_saveProtobufDir exHelpers (exFlags True False) get_emp {} True) = None \<and>
   Function_SaveProtobuf exHelpers (exFlags True False) bufferWrite get_emp ''syntax'' {} =
     (None, ''syntax'' @ get_emp_text, {''PEmpRekTyp''})"
  using Function_SaveProtobuf_atomic [OF broken_out_input broken_out_output,
      of bufferWrite "''syntax''"]
    Function_SaveProtobuf_atomic [OF get_emp_input get_emp_output, of bufferWrite "''syntax''"]
  by (simp add: broken_out_input broken_out_output get_emp_input get_emp_output
      bufferWrite_def get_emp_text_def)

section \<open>Failing writes\<close>

text \<open>
  C3.  On a destination that refuses every write, \<^verbatim>\<open>SaveProtobuf\<close> of an empty function
  list returns nil, whatever the package and the switches: the header, the package
  clause, the import line and the service block are all refused, and no error comes
  back.
\<close>

theorem SaveProtobuf_closed_returns_nil:
  "(\<forall>w p. snd (closedWrite w p) \<noteq> None) \<and>
   SaveProtobuf H F closedWrite w0 [] pkg = (None, w0)"
  by (simp add: SaveProtobuf_def writeHeader_def writeService_def afterLoop_def closedWrite_def)

section \<open>Scalar fields\<close>

text \<open>
  C5.  For an argument that is a plain scalar, or a table whose element is a plain
  scalar, the loop writes the doc comment with the native type label and one field
  line, and goes on to the next argument with the registry and the side buffer of
  nested messages unchanged: there is no recursion.  For a table the qualifier is
  \<^verbatim>\<open>repeated\<close>.
\<close>

theorem protoFields_scalar:
  assumes "Flavor arg = FLAVOR_SIMPLE \<or>
           Flavor arg = FLAVOR_TABLE \<and> (\<exists>t. TableOf arg = Some t \<and> Flavor t = FLAVOR_SIMPLE)"
  shows "protoFields H F m seen i (arg # rest) w buf =
           protoFields H F m seen (Suc i) rest
             (w @ TAB @ ''// '' @ AbsType arg @ NL @
                  TAB @ fieldRule H (hideName H arg) @ fieldTyp H F (hideName H arg) @ '' '' @
                  Name (hideName H arg) @ '' = '' @ fmt_d (i + 1) @
                  fieldOptS H F (hideName H arg) @ '';'' @ NL)
             buf \<and>
         (Flavor arg = FLAVOR_TABLE \<longrightarrow> fieldRule H (hideName H arg) = ''repeated '')"
  using assms by (auto simp: isScalar_def missingTableOf_def scalarLine_def fieldRule_def)

theorem protoFields_scalar_witness:
  "protoFields exHelpers (exFlags True False) ''M'' {} 0 [amounts_tab] [] [] =
     (None, TAB @ ''// NUM_TAB'' @ NL @ TAB @ ''repeated double amounts = 1;'' @ NL, [], {}) \<and>
   protoFields exHelpers (exFlags True False) ''M'' {} 1 [scalarArg ''p_id'' DIR_IN ''PLS_INTEGER''] [] [] =
     (None, TAB @ ''// PLS_INTEGER'' @ NL @ TAB @ ''sint32 p_id = 2;'' @ NL, [], {})"
proof -
  have t: "Flavor amounts_tab = FLAVOR_SIMPLE \<or>
           Flavor amounts_tab = FLAVOR_TABLE \<and>
             (\<exists>t. TableOf amounts_tab = Some t \<and> Flavor t = FLAVOR_SIMPLE)"
    by (simp add: amounts_tab_def scalarArg_def)
  have s: "Flavor (scalarArg ''p_id'' DIR_IN ''PLS_INTEGER'') = FLAVOR_SIMPLE \<or>
           Flavor (scalarArg ''p_id'' DIR_IN ''PLS_INTEGER'') = FLAVOR_TABLE \<and>
             (\<exists>t. TableOf (scalarArg ''p_id'' DIR_IN ''PLS_INTEGER'') = Some t \<and>
                  Flavor t = FLAVOR_SIMPLE)"
    by (simp add: scalarArg_def)
  show ?thesis
    using protoFields_scalar [OF t, of exHelpers "exFlags True False" "''M''" "{}" 0 "[]" "[]" "[]"]
      protoFields_scalar [OF s, of exHelpers "exFlags True False" "''M''" "{}" 1 "[]" "[]" "[]"]
    by (simp add: string_defs emit_defs ex_defs amounts_tab_def)
qed

section \<open>Selected arguments and field numbers\<close>

text \<open>
  C6.  The arguments of a direction are those of the function whose Direction has the
  bit of the direction (bit 0 for input, bit 1 for output), in the order of the
  function, followed for the output by the return value when there is one.  When the
  emission succeeds, the message is the header, then the text of the selected
  arguments in that order, the argument at index \<open>k\<close> carrying the field number \<open>k + 1\<close>,
  then the closing brace and the nested messages.
\<close>

theorem saveProtobufDir_fields:
  assumes "Function_saveProtobufDir H F f seen out = (None, txt, seen')"
  shows "selectArgs f out =
           filter (\<lambda>a. bit (Direction a) (if out then 1 else 0 :: nat)) (Args f) @
           (if out then (case Returns f of Some r \<Rightarrow> [r] | None \<Rightarrow> []) else []) \<and>
         (\<exists>nested. txt =
            NL @ ''message '' @ CamelCase H (dot2D (ToLower (name f)) @ ''__'' @ dirname out) @
            '' {'' @ NL @
            concat (map (\<lambda>(k, a). fieldLine H F k a) (enumerate 0 (selectArgs f out))) @
            ''}'' @ NL @ nested)"
proof -
  have "selectArgs f out =
           filter (\<lambda>a. bit (Direction a) (if out then 1 else 0 :: nat)) (Args f) @
           (if out then (case Returns f of Some r \<Rightarrow> [r] | None \<Rightarrow> []) else [])"
    by (simp add: selectArgs_def dir_bit)
  moreover have "\<exists>nested. txt =
            NL @ ''message '' @ CamelCase H (dot2D (ToLower (name f)) @ ''__'' @ dirname out) @
            '' {'' @ NL @
            concat (map (\<lambda>(k, a). fieldLine H F k a) (enumerate 0 (selectArgs f out))) @
            ''}'' @ NL @ nested"
    using assms unfolding Function_saveProtobufDir_def by (rule protoWriteMessageTyp_text)
  ultimately show ?thesis by blast
qed

lemma calc_output:
  "Function_saveProtobufDir exHelpers (exFlags True False) calc {} True =
     (None,
      NL @ ''message PkgCalcOutput {'' @ NL @
      TAB @ ''// BINARY_DOUBLE'' @ NL @ TAB @ ''double b = 1;'' @ NL @
      TAB @ ''// VARCHAR2'' @ NL @ TAB @ ''string c = 2;'' @ NL @
      TAB @ ''// PLS_INTEGER'' @ NL @ TAB @ ''sint32 ret = 3;'' @ NL @
      ''}'' @ NL, {})"
  by (simp add: string_defs emit_defs ex_defs calc_def)

lemma calc_input:
  "Function_saveProtobufDir exHelpers (exFlags True False) calc {} False =
     (None,
      NL @ ''message PkgCalcInput {'' @ NL @
      TAB @ ''// PLS_INTEGER'' @ NL @ TAB @ ''sint32 a = 1;'' @ NL @
      TAB @ ''// BINARY_DOUBLE'' @ NL @ TAB @ ''double b = 2;'' @ NL @
      ''}'' @ NL, {})"
  by (simp add: string_defs emit_defs ex_defs)

theorem saveProtobufDir_fields_witness:
  "Function_saveProtobufDir exHelpers (exFlags True False) calc {} True =
     (None,
      NL @ ''message PkgCalcOutput {'' @ NL @
      TAB @ ''// BINARY_DOUBLE'' @ NL @ TAB @ ''double b = 1;'' @ NL @
      TAB @ ''// VARCHAR2'' @ NL @ TAB @ ''string c = 2;'' @ NL @
      TAB @ ''// PLS_INTEGER'' @ NL @ TAB @ ''sint32 ret = 3;'' @ NL @
      ''}'' @ NL, {}) \<and>
   selectArgs calc True =
     [scalarArg ''b'' 3 ''BINARY_DOUBLE'', scalarArg ''c'' 2 ''VARCHAR2'',
      scalarArg ''ret'' 2 ''PLS_INTEGER''] \<and>
   Function_saveProtobufDir exHelpers (exFlags True False) calc {} False =
     (None,
      NL @ ''message PkgCalcInput {'' @ NL @
      TAB @ ''// PLS_INTEGER'' @ NL @ TAB @ ''sint32 a = 1;'' @ NL @
      TAB @ ''// BINARY_DOUBLE'' @ NL @ TAB @ ''double b = 2;'' @ NL @
      ''}'' @ NL, {}) \<and>
   selectArgs calc False = [scalarArg ''a'' 1 ''PLS_INTEGER'', scalarArg ''b'' 3 ''BINARY_DOUBLE'']"
proof -
  from saveProtobufDir_fields [OF calc_output]
  have "selectArgs calc True =
          filter (\<lambda>a. bit (Direction a) (1 :: nat)) (Args calc) @
          (case Returns calc of Some r \<Rightarrow> [r] | None \<Rightarrow> [])"
    by simp
  then have o: "selectArgs calc True =
     [scalarArg ''b'' 3 ''BINARY_DOUBLE'', scalarArg ''c'' 2 ''VARCHAR2'',
      scalarArg ''ret'' 2 ''PLS_INTEGER'']"
    by (simp add: calc_def DIR_IN_def DIR_OUT_def scalarArg_def)
  from saveProtobufDir_fields [OF calc_input]
  have "selectArgs calc False = filter (\<lambda>a. bit (Direction a) (0 :: nat)) (Args calc)"
    by simp
  then have i: "selectArgs calc False =
     [scalarArg ''a'' 1 ''PLS_INTEGER'', scalarArg ''b'' 3 ''BINARY_DOUBLE'']"
    by (simp add: calc_def DIR_IN_def DIR_OUT_def scalarArg_def)
  from o i calc_output calc_input show ?thesis by simp
qed

section \<open>The order of the options\<close>

lemma protoType_options: "length (snd (protoType F got aName)) \<le> 1"
  by (simp add: protoType_def Let_def)

lemma short_perm:
  assumes "mset (ord opts) = mset opts" and "length opts \<le> 1"
  shows "ord opts = opts"
proof (cases opts)
  case Nil
  with assms show ?thesis by simp
next
  case (Cons x xs)
  with assms have "opts = [x]" by simp
  with assms show ?thesis by (simp add: mset_single_iff)
qed

lemma protoOptions_String_order:
  assumes "mset (ord opts) = mset opts" and "length opts \<le> 1"
  shows "protoOptions_String ord opts = protoOptions_String (\<lambda>x. x) opts"
  using short_perm [of ord opts] assms by (simp add: protoOptions_String_def)

lemma fieldOptS_order:
  assumes "\<forall>opts. mset (rangeOrder H opts) = mset opts"
    and "\<forall>opts. mset (ord opts) = mset opts"
  shows "fieldOptS (H\<lparr>rangeOrder := ord\<rparr>) F a = fieldOptS H F a"
proof -
  let ?opts = "snd (protoType F (fieldGot H a) (Name a))"
  have "protoOptions_String ord ?opts = protoOptions_String (rangeOrder H) ?opts"
    using protoOptions_String_order [of ord ?opts] protoOptions_String_order [of "rangeOrder H" ?opts]
      assms protoType_options [of F "fieldGot H a" "Name a"]
    by simp
  then show ?thesis by (simp add: fieldOptS_def fieldGot_def)
qed

lemma lines_order:
  assumes "\<forall>opts. mset (rangeOrder H opts) = mset opts"
    and "\<forall>opts. mset (ord opts) = mset opts"
  shows "scalarLine (H\<lparr>rangeOrder := ord\<rparr>) F i a = scalarLine H F i a"
    and "refLine (H\<lparr>rangeOrder := ord\<rparr>) F i a = refLine H F i a"
  using fieldOptS_order [OF assms]
  by (simp_all add: scalarLine_def refLine_def fieldRule_def fieldTyp_def fieldGot_def)

lemma helpers_order [simp]:
  "hideName (H\<lparr>rangeOrder := ord\<rparr>) a = hideName H a"
  "fieldTyp (H\<lparr>rangeOrder := ord\<rparr>) F a = fieldTyp H F a"
  by (simp_all add: hideName_def fieldTyp_def fieldGot_def)

lemma emit_order:
  assumes ord: "\<forall>opts. mset (ord opts) = mset opts"
  shows "\<forall>opts. mset (rangeOrder H opts) = mset opts \<Longrightarrow>
           protoWriteMessageTyp (H\<lparr>rangeOrder := ord\<rparr>) F m seen args =
           protoWriteMessageTyp H F m seen args"
    and "\<forall>opts. mset (rangeOrder H opts) = mset opts \<Longrightarrow>
           protoFields (H\<lparr>rangeOrder := ord\<rparr>) F m seen i args w buf =
           protoFields H F m seen i args w buf"
proof (induction H F m seen args and H F m seen i args w buf
    rule: protoWriteMessageTyp_protoFields.induct)
  case (1 H F msgName seen args)
  then show ?case
    by (simp add: protoWriteMessageTyp.simps split: option.splits)
next
  case (2 H F msgName seen i w buf)
  show ?case by simp
next
  case (3 H F msgName seen i arg0 rest w buf)
  note l = lines_order [OF "3.prems" ord]
  from 3 show ?case
    by (simp add: l split: prod.splits option.splits)
qed


lemma FunLoop_order:
  assumes "\<forall>opts. mset (ord opts) = mset opts"
    and "\<forall>opts. mset (rangeOrder H opts) = mset opts"
  shows "FunLoop (H\<lparr>rangeOrder := ord\<rparr>) F W fs w seen services = FunLoop H F W fs w seen services"
proof -
  have d: "Function_saveProtobufDir (H\<lparr>rangeOrder := ord\<rparr>) F f s out =
           Function_saveProtobufDir H F f s out" for f s out
    using emit_order(1) [OF assms] by (simp add: Function_saveProtobufDir_def)
  have f: "Function_SaveProtobuf (H\<lparr>rangeOrder := ord\<rparr>) F W f w s =
           Function_SaveProtobuf H F W f w s" for f w s
    by (simp add: Function_SaveProtobuf_def d split: prod.splits option.splits)
  have r: "rpcLine (H\<lparr>rangeOrder := ord\<rparr>) f = rpcLine H f" for f
    by (simp add: rpcLine_def)
  show ?thesis
    by (induction fs arbitrary: w seen services)
       (simp_all add: f r split: prod.splits option.splits)
qed

lemma SaveProtobuf_order:
  assumes "\<forall>opts. mset (ord opts) = mset opts"
    and "\<forall>opts. mset (rangeOrder H opts) = mset opts"
  shows "SaveProtobuf (H\<lparr>rangeOrder := ord\<rparr>) F W w0 fs pkg = SaveProtobuf H F W w0 fs pkg"
  by (simp add: SaveProtobuf_def FunLoop_order [OF assms] afterLoop_def writeService_def
      split: prod.splits option.splits)

text \<open>
  C10.  An options map that \<^verbatim>\<open>protoType\<close> returns has at most one entry.  So for any
  two orders in which the runtime may visit the entries of a map (each a rearrangement
  of the entries), the rendered options are the same, and two runs of \<^verbatim>\<open>SaveProtobuf\<close>
  on the same functions, package, switches and writer return the same error and leave
  the same output.
\<close>

theorem SaveProtobuf_deterministic:
  assumes "\<forall>opts. mset (ord1 opts) = mset opts" and "\<forall>opts. mset (ord2 opts) = mset opts"
  shows "length (snd (protoType F got aName)) \<le> 1 \<and>
         protoOptions_String ord1 (snd (protoType F got aName)) =
         protoOptions_String ord2 (snd (protoType F got aName)) \<and>
         SaveProtobuf (H\<lparr>rangeOrder := ord1\<rparr>) F W w0 fs pkg =
         SaveProtobuf (H\<lparr>rangeOrder := ord2\<rparr>) F W w0 fs pkg"
proof -
  let ?opts = "snd (protoType F got aName)"
  have l: "length ?opts \<le> 1" by (rule protoType_options)
  have "protoOptions_String ord1 ?opts = protoOptions_String ord2 ?opts"
    using protoOptions_String_order [of ord1 ?opts] protoOptions_String_order [of ord2 ?opts]
      assms l by simp
  moreover have "SaveProtobuf (H\<lparr>rangeOrder := ord1\<rparr>) F W w0 fs pkg =
         SaveProtobuf (H\<lparr>rangeOrder := ord2\<rparr>) F W w0 fs pkg"
    using SaveProtobuf_order [of ord1 "H\<lparr>rangeOrder := ord2\<rparr>" F W w0 fs pkg] assms by simp
  ultimately show ?thesis using l by simp
qed

theorem SaveProtobuf_deterministic_witness:
  "(\<forall>opts :: protoOptions. mset (opts) = mset opts) \<and>
   (\<forall>opts :: protoOptions. mset (rev opts) = mset opts) \<and>
   protoOptions_String (\<lambda>opts. opts) (snd (protoType (exFlags True True) ''float64'' ''amount'')) =
   protoOptions_String rev (snd (protoType (exFlags True True) ''float64'' ''amount'')) \<and>
   SaveProtobuf (exHelpers\<lparr>rangeOrder := \<lambda>opts. opts\<rparr>) (exFlags True True) bufferWrite []
     [get_emp, calc] ''emp'' =
   SaveProtobuf (exHelpers\<lparr>rangeOrder := rev\<rparr>) (exFlags True True) bufferWrite []
     [get_emp, calc] ''emp''"
proof -
  have a: "\<forall>opts :: protoOptions. mset ((\<lambda>opts. opts) opts) = mset opts" by simp
  have b: "\<forall>opts :: protoOptions. mset (rev opts) = mset opts" by simp
  show ?thesis
    using SaveProtobuf_deterministic [OF a b, of "exFlags True True" "''float64''" "''amount''"
        exHelpers bufferWrite "[]" "[get_emp, calc]" "''emp''"]
    by simp
qed

section \<open>The names of messages and rpc entries\<close>

text \<open>
  C8.  When the emission of a direction succeeds, its text starts with the message
  whose name is the function name lower-cased, with dots replaced by double
  underscores, suffixed \<^verbatim>\<open>__input\<close> or \<^verbatim>\<open>__output\<close> and title-cased.  The rpc entry of
  the function has the method name derived from the lower-cased function name with the
  dots replaced, and refers to exactly these two message names.
\<close>

theorem message_and_rpc_names:
  assumes "Function_saveProtobufDir H F f seen out = (None, txt, seen')"
  shows "(\<exists>body. txt =
            NL @ ''message '' @
            CamelCase H (dot2D (ToLower (name f)) @ (if out then ''__output'' else ''__input'')) @
            '' {'' @ NL @ body) \<and>
         rpcLine H f =
           (if Documentation f \<noteq> []
            then NL @ ''/// '' @ ReplaceChar (CHR 0x0A) (NL @ ''/// '') (Documentation f) @ NL @ TAB
            else []) @
           ''rpc '' @ CamelCase H (dot2D (ToLower (name f))) @
           '' ('' @ CamelCase H (dot2D (ToLower (name f)) @ ''__input'') @
           '') returns ('' @ (if HasCursorOut H f then ''stream '' else []) @
           CamelCase H (dot2D (ToLower (name f)) @ ''__output'') @ '') {}''"
proof -
  from assms obtain nested where "txt =
      NL @ ''message '' @ CamelCase H (dot2D (ToLower (name f)) @ ''__'' @ dirname out) @
      '' {'' @ NL @
      concat (map (\<lambda>(k, a). fieldLine H F k a) (enumerate 0 (selectArgs f out))) @
      ''}'' @ NL @ nested"
    unfolding Function_saveProtobufDir_def by (blast dest: protoWriteMessageTyp_text)
  then have "\<exists>body. txt =
            NL @ ''message '' @
            CamelCase H (dot2D (ToLower (name f)) @ (if out then ''__output'' else ''__input'')) @
            '' {'' @ NL @ body"
    by (simp add: dirname_def)
  then show ?thesis
    by (simp add: rpcLine_def getStructName_def dirname_def Let_def)
qed

theorem message_and_rpc_names_witness:
  "Function_saveProtobufDir exHelpers (exFlags True False) calc {} True =
     (None,
      NL @ ''message PkgCalcOutput {'' @ NL @
      TAB @ ''// BINARY_DOUBLE'' @ NL @ TAB @ ''double b = 1;'' @ NL @
      TAB @ ''// VARCHAR2'' @ NL @ TAB @ ''string c = 2;'' @ NL @
      TAB @ ''// PLS_INTEGER'' @ NL @ TAB @ ''sint32 ret = 3;'' @ NL @
      ''}'' @ NL, {}) \<and>
   Function_saveProtobufDir exHelpers (exFlags True False) calc {} False =
     (None,
      NL @ ''message PkgCalcInput {'' @ NL @
      TAB @ ''// PLS_INTEGER'' @ NL @ TAB @ ''sint32 a = 1;'' @ NL @
      TAB @ ''// BINARY_DOUBLE'' @ NL @ TAB @ ''double b = 2;'' @ NL @
      ''}'' @ NL, {}) \<and>
   rpcLine exHelpers calc =
     NL @ ''/// Calculates.'' @ NL @ TAB @
     ''rpc PkgCalc (PkgCalcInput) returns (PkgCalcOutput) {}''"
proof -
  have n: "CamelCase exHelpers (dot2D (ToLower (name calc))) = ''PkgCalc''"
    "CamelCase exHelpers (dot2D (ToLower (name calc)) @ ''__input'') = ''PkgCalcInput''"
    "CamelCase exHelpers (dot2D (ToLower (name calc)) @ ''__output'') = ''PkgCalcOutput''"
    by (simp_all add: string_defs ex_defs)
  have d: "Documentation calc = ''Calculates.''" "HasCursorOut exHelpers calc = False"
    by (simp_all add: calc_def exHelpers_def)
  from message_and_rpc_names [OF calc_output] message_and_rpc_names [OF calc_input]
  have "rpcLine exHelpers calc =
     NL @ ''/// Calculates.'' @ NL @ TAB @
     ''rpc PkgCalc (PkgCalcInput) returns (PkgCalcOutput) {}''"
    by (simp add: n d ReplaceChar_def)
  with calc_output calc_input show ?thesis by simp
qed

section \<open>The field line of a 64-bit float\<close>

text \<open>
  C7, as stated, fails: with the numbers-as-strings switch on, the field line of the
  argument \<^verbatim>\<open>amount\<close> carries the value of the option between double quotes (the \<^verbatim>\<open>%q\<close>
  verb), so it is not the line with the bare value.
\<close>

theorem float64_line_counterexample:
  "protoFields exHelpers (exFlags True True) ''M'' {} 0 [amount_arg] [] [] =
     (None,
      TAB @ ''// BINARY_DOUBLE'' @ NL @
      TAB @ ''double amount = 1 [(gogoproto.jsontag)='' @ [DQ] @ ''amount,string,omitempty'' @
      [DQ] @ ''];'' @ NL, [], {}) \<and>
   fst (snd (protoFields exHelpers (exFlags True True) ''M'' {} 0 [amount_arg] [] [])) \<noteq>
      TAB @ ''// BINARY_DOUBLE'' @ NL @
      TAB @ ''double amount = 1 [(gogoproto.jsontag)=amount,string,omitempty];'' @ NL \<and>
   fst (snd (protoFields exHelpers (exFlags True True) ''M'' {} 0 [amount_arg] [] [])) \<noteq>
      TAB @ ''// BINARY_DOUBLE'' @ NL @
      TAB @ ''double amount = 1 [(stringify-hint)=amount,string,omitempty];'' @ NL"
  by (simp add: string_defs emit_defs ex_defs amount_arg_def)

text \<open>
  C7, amended.  For a plain scalar argument named \<^verbatim>\<open>amount\<close> whose Go type is
  \<^verbatim>\<open>float64\<close>, the loop writes the doc comment and the line \<^verbatim>\<open>double amount = N;\<close> when
  the switch is off, and the line
  \<^verbatim>\<open>double amount = N [(gogoproto.jsontag)="amount,string,omitempty"];\<close> when it is on,
  \<open>N\<close> being the index plus one; the empty options map renders as the empty string.
\<close>

theorem float64_field_line:
  assumes "Flavor arg = FLAVOR_SIMPLE" and "Name arg = ''amount''"
    and "goType H arg = ''float64''"
    and "\<forall>opts. mset (rangeOrder H opts) = mset opts"
  shows "protoFields H F m seen i (arg # rest) w buf =
           protoFields H F m seen (Suc i) rest
             (w @ TAB @ ''// '' @ AbsType arg @ NL @
                  TAB @ ''double amount = '' @ fmt_d (i + 1) @
                  (if NumberAsString F
                   then '' [(gogoproto.jsontag)='' @ [DQ] @ ''amount,string,omitempty'' @ [DQ] @ '']''
                   else []) @ '';'' @ NL)
             buf \<and>
         protoOptions_String (rangeOrder H) [] = []"
proof -
  have h: "hideName H arg = arg"
    using assms(2) by (simp add: hideName_def HasSuffix_def)
  have g: "fieldGot H arg = ''float64''"
    using assms(3) by (simp add: fieldGot_def stripMarkers_def TrimPrefix_def HasPrefix_def)
  have r: "fieldRule H arg = []"
    using assms(1,3) by (simp add: fieldRule_def TrimPrefix_def HasPrefix_def)
  have p: "protoType F ''float64'' ''amount'' =
        (''double'', if NumberAsString F
           then [(''gogoproto.jsontag'', OptString ''amount,string,omitempty'')] else [])"
    by (simp add: protoType_def string_defs)
  have o: "rangeOrder H [x] = [x]" for x
    using assms(4) short_perm [of "rangeOrder H" "[x]"] by simp
  have s: "fieldOptS H F arg =
        (if NumberAsString F
         then '' [(gogoproto.jsontag)='' @ [DQ] @ ''amount,string,omitempty'' @ [DQ] @ '']''
         else [])"
    by (simp add: fieldOptS_def g assms(2) p protoOptions_String_def o string_defs)
  have "scalarLine H F i arg =
      TAB @ ''// '' @ AbsType arg @ NL @
                  TAB @ ''double amount = '' @ fmt_d (i + 1) @
                  (if NumberAsString F
                   then '' [(gogoproto.jsontag)='' @ [DQ] @ ''amount,string,omitempty'' @ [DQ] @ '']''
                   else []) @ '';'' @ NL"
    by (simp add: scalarLine_def r fieldTyp_def g assms(2) p s)
  then show ?thesis
    using assms(1) by (simp add: h isScalar_def missingTableOf_def protoOptions_String_def)
qed

theorem float64_field_line_witness:
  "protoFields exHelpers (exFlags True True) ''M'' {} 0 [amount_arg] [] [] =
     (None,
      TAB @ ''// BINARY_DOUBLE'' @ NL @
      TAB @ ''double amount = 1 [(gogoproto.jsontag)='' @ [DQ] @ ''amount,string,omitempty'' @
      [DQ] @ ''];'' @ NL, [], {}) \<and>
   protoFields exHelpers (exFlags True False) ''M'' {} 0 [amount_arg] [] [] =
     (None, TAB @ ''// BINARY_DOUBLE'' @ NL @ TAB @ ''double amount = 1;'' @ NL, [], {})"
proof -
  have a: "Flavor amount_arg = FLAVOR_SIMPLE" "Name amount_arg = ''amount''"
    "goType exHelpers amount_arg = ''float64''"
    "\<forall>opts. mset (rangeOrder exHelpers opts) = mset opts"
    by (simp_all add: amount_arg_def ex_defs)
  show ?thesis
    using float64_field_line [OF a, of "exFlags True True" "''M''" "{}" 0 "[]" "[]" "[]"]
      float64_field_line [OF a, of "exFlags True False" "''M''" "{}" 0 "[]" "[]" "[]"]
    by (simp add: amount_arg_def scalarArg_def exFlags_def fmt_d.simps digitChar_def)
qed

section \<open>The placeholder for an empty type descriptor\<close>

lemma lowerChar_idem: "lowerChar (lowerChar c) = lowerChar c"
  by (simp add: lowerChar_def)

lemma ToLower_idem: "ToLower (ToLower s) = ToLower s"
  by (simp add: ToLower_def lowerChar_idem)

lemma lowerChar_marks:
  "(lowerChar c = CHR ''*'') = (c = CHR ''*'')"
  "(lowerChar c = CHR ''['') = (c = CHR ''['')"
  "(lowerChar c = CHR '']'') = (c = CHR '']'')"
  by (auto simp: lowerChar_def)

lemma protoType_placeholder:
  assumes "\<not> HasPrefix n ''[]''" and "\<not> HasPrefix n ''*''"
  shows "protoType F (mkRecTypName n) aName = (mkRecTypName n, [])"
proof -
  let ?p = "ToLower n @ ''_rek_typ''"
  have a: "\<not> HasPrefix ?p ''[]''"
    using assms(1) by (cases n; cases "tl n") (auto simp: HasPrefix_def ToLower_def lowerChar_marks)
  have b: "\<not> HasPrefix ?p ''*''"
    using assms(2) by (cases n) (auto simp: HasPrefix_def ToLower_def lowerChar_marks)
  have t: "ToLower (TrimPrefix (TrimPrefix ?p ''[]'') ''*'') = ?p"
    using a b by (simp add: TrimPrefix_def ToLower_idem) (simp add: ToLower_def lowerChar_def)
  have l: "last ?p = CHR ''p''" by simp
  have "?p \<noteq> s" if "last s \<noteq> CHR ''p''" for s
    using l that by metis
  then have "?p \<notin> {''time.time'', ''string'', ''int32'', ''float64'', ''sql.nullfloat64'',
      ''goracle.number'', ''custom.date'', ''n'', ''raw'', ''goracle.lob'', ''ora.lob''}"
    by simp
  then show ?thesis
    unfolding protoType_def mkRecTypName_def t Let_def by simp
qed


text \<open>
  C9, as stated, fails twice.  The emission of an argument with an empty descriptor can
  fail: a table without \<^verbatim>\<open>TableOf\<close> has the empty descriptor here and makes the message
  fail.  And the placeholder is built from the name after the desugaring of the hidden
  marker: for \<^verbatim>\<open>x#\<close> it is \<^verbatim>\<open>x__rek_typ\<close>, not the lower-cased name \<^verbatim>\<open>x#\<close> with the
  suffix.
\<close>

theorem empty_descriptor_counterexample:
  "stripMarkers (goType exHelpers (hideName exHelpers empty_tab)) = [] \<and>
   fst (protoWriteMessageTyp exHelpers (exFlags True False) ''M'' {} [empty_tab]) =
     Some (Wrapf ErrMissingTableOf ''M'' empty_tab) \<and>
   stripMarkers (goType exHelpers (hideName exHelpers hidden_arg)) = [] \<and>
   protoFields exHelpers (exFlags True False) ''M'' {} 0 [hidden_arg] [] [] =
     (None, TAB @ ''// UNKNOWN'' @ NL @ TAB @ ''x__rek_typ x_ = 1;'' @ NL, [], {}) \<and>
   ToLower (Name hidden_arg) @ ''_rek_typ'' = ''x#_rek_typ''"
  by (simp add: string_defs emit_defs ex_defs empty_tab_def hidden_arg_def)

text \<open>
  C9, amended.  When the normalized descriptor of an argument is empty, the descriptor
  becomes the placeholder: the name the loop holds for the argument (the name after
  the desugaring of a trailing \<^verbatim>\<open>#\<close>, so the argument's own name when it has none),
  lower-cased, with the suffix \<^verbatim>\<open>_rek_typ\<close>.  The wire type is what the type mapper
  returns for the placeholder; it is the placeholder itself, with no options, unless
  the name starts with one of the markers.  A scalar argument then gets its field line
  and the loop goes on.  An empty descriptor is never an error of its own: a message
  fails only with an error that names a table without \<^verbatim>\<open>TableOf\<close>.
\<close>

theorem empty_descriptor_placeholder:
  assumes "stripMarkers (goType H (hideName H arg)) = []"
  shows "fieldGot H (hideName H arg) = ToLower (Name (hideName H arg)) @ ''_rek_typ'' \<and>
         (\<not> HasSuffix (Name arg) ''#'' \<longrightarrow>
            fieldGot H (hideName H arg) = ToLower (Name arg) @ ''_rek_typ'') \<and>
         (\<not> HasPrefix (Name (hideName H arg)) ''[]'' \<and> \<not> HasPrefix (Name (hideName H arg)) ''*'' \<longrightarrow>
            fieldTyp H F (hideName H arg) = ToLower (Name (hideName H arg)) @ ''_rek_typ'' \<and>
            fieldOptS H F (hideName H arg) = []) \<and>
         (isScalar arg \<longrightarrow>
            protoFields H F m seen i (arg # rest) w buf =
              protoFields H F m seen (Suc i) rest
                (w @ TAB @ ''// '' @ AbsType arg @ NL @
                     TAB @ fieldRule H (hideName H arg) @
                     fst (protoType F (ToLower (Name (hideName H arg)) @ ''_rek_typ'')
                            (Name (hideName H arg))) @
                     '' '' @ Name (hideName H arg) @ '' = '' @ fmt_d (i + 1) @
                     fieldOptS H F (hideName H arg) @ '';'' @ NL)
                buf) \<and>
         (fst (protoWriteMessageTyp H F m seen (arg # rest)) = Some e \<longrightarrow> namesMissingTableOf e)"
proof -
  let ?a = "hideName H arg"
  have g: "fieldGot H ?a = ToLower (Name ?a) @ ''_rek_typ''"
    using assms by (simp add: fieldGot_def mkRecTypName_def)
  have n: "fieldGot H ?a = ToLower (Name arg) @ ''_rek_typ''" if "\<not> HasSuffix (Name arg) ''#''"
    using g that by (simp add: hideName_def)
  have t: "fieldTyp H F ?a = ToLower (Name ?a) @ ''_rek_typ'' \<and> fieldOptS H F ?a = []"
    if "\<not> HasPrefix (Name ?a) ''[]''" "\<not> HasPrefix (Name ?a) ''*''"
    using protoType_placeholder [OF that, of F "Name ?a"] g
    by (simp add: fieldTyp_def fieldOptS_def mkRecTypName_def protoOptions_String_def)
  have s: "isScalar ?a = isScalar arg" "missingTableOf ?a = missingTableOf arg"
    by (simp_all add: isScalar_def missingTableOf_def)
  have p: "protoFields H F m seen i (arg # rest) w buf =
              protoFields H F m seen (Suc i) rest
                (w @ TAB @ ''// '' @ AbsType arg @ NL @
                     TAB @ fieldRule H ?a @
                     fst (protoType F (ToLower (Name ?a) @ ''_rek_typ'') (Name ?a)) @
                     '' '' @ Name ?a @ '' = '' @ fmt_d (i + 1) @
                     fieldOptS H F ?a @ '';'' @ NL)
                buf" if "isScalar arg"
  proof -
    from that have "\<not> missingTableOf arg"
      by (auto simp: isScalar_def missingTableOf_def split: option.splits)
    with that show ?thesis
      by (simp add: s scalarLine_def fieldTyp_def g)
  qed
  have e: "namesMissingTableOf e" if "fst (protoWriteMessageTyp H F m seen (arg # rest)) = Some e"
    using that by (rule emit_errors)
  from g n t p e show ?thesis by blast
qed

theorem empty_descriptor_placeholder_witness:
  "stripMarkers (goType exHelpers (hideName exHelpers cnt_arg)) = [] \<and>
   \<not> HasSuffix (Name cnt_arg) ''#'' \<and> isScalar cnt_arg \<and>
   fieldGot exHelpers (hideName exHelpers cnt_arg) = ''cnt_rek_typ'' \<and>
   fieldTyp exHelpers (exFlags True False) (hideName exHelpers cnt_arg) = ''cnt_rek_typ'' \<and>
   protoFields exHelpers (exFlags True False) ''M'' {} 0 [cnt_arg] [] [] =
     (None, TAB @ ''// UNKNOWN'' @ NL @ TAB @ ''cnt_rek_typ Cnt = 1;'' @ NL, [], {}) \<and>
   fst (protoWriteMessageTyp exHelpers (exFlags True False) ''M'' {} [cnt_arg, empty_tab]) =
     Some (Wrapf ErrMissingTableOf ''M'' empty_tab) \<and>
   namesMissingTableOf (Wrapf ErrMissingTableOf ''M'' empty_tab)"
proof -
  have a: "stripMarkers (goType exHelpers (hideName exHelpers cnt_arg)) = []"
    by (simp add: string_defs emit_defs ex_defs cnt_arg_def)
  show ?thesis
    using empty_descriptor_placeholder [OF a, of "exFlags True False" "''M''" "{}" 0 "[]" "[]" "[]"
        "Wrapf ErrMissingTableOf ''M'' empty_tab"]
      empty_descriptor_placeholder [OF a, of "exFlags True False" "''M''" "{}" 0 "[]" "[]" "[]"]
      empty_descriptor_placeholder [OF a, of _ "''M''" "{}" _ "[empty_tab]" _ _
        "Wrapf ErrMissingTableOf ''M'' empty_tab" ]
    by (simp add: string_defs emit_defs ex_defs cnt_arg_def empty_tab_def)
qed
section \<open>A message body emitted twice\<close>

text \<open>
  C4.  The registry gets the name of a nested message only after the body has been
  built.  The function \<open>twice\<close> has one argument, a record without a type name whose
  field \<^verbatim>\<open>x\<close> is again such a record: both derive the name \<^verbatim>\<open>XRekTyp\<close>, the inner one
  while the outer body is being built, and the run emits two bodies for \<^verbatim>\<open>XRekTyp\<close>.
\<close>

theorem twice_emits_body_twice:
  "SaveProtobuf exHelpers (exFlags True False) bufferWrite [] [twice] [] =
     (None,
      ''syntax = '' @ [DQ] @ ''proto3'' @ [DQ] @ '';'' @ NL @ NL @
      NL @ ''message TwiceInput {'' @ NL @
      TAB @ ''XRekTyp x = 1;'' @ NL @
      ''}'' @ NL @
      NL @ ''message XRekTyp {'' @ NL @
      TAB @ ''XRekTyp x = 1;'' @ NL @
      ''}'' @ NL @
      NL @ ''message XRekTyp {'' @ NL @
      TAB @ ''// VARCHAR2'' @ NL @
      TAB @ ''string y = 1;'' @ NL @
      ''}'' @ NL @
      NL @ ''message TwiceOutput {'' @ NL @
      ''}'' @ NL @
      NL @ ''service  {'' @ NL @
      TAB @ ''rpc Twice (TwiceInput) returns (TwiceOutput) {}'' @ NL @
      ''}'')"
  by (simp add: string_defs emit_defs ex_defs twice_def nested_same_def)

end
